theory Spec2Isabelle
  imports Main "HOL-Library.AList"
begin

section \<open>JavaScript values, strings and errors\<close>

text \<open>
  A JavaScript string is modelled as a \<open>string\<close>: a list of code units, here restricted to
  the range U+0000..U+00FF. Values that are not strings are kept apart, because the code
  tests \<open>typeof value === "string"\<close>, reads \<open>input.constructor\<close> and destructures arrays
  that may be too short (giving \<open>undefined\<close>).
\<close>

datatype jsvalue =
    JString string
  | JNumber int
  | JBoolean bool
  | JNull
  | JUndefined

datatype errname =
    Error | TypeError | SyntaxError | ReferenceError | KeychainError | InvalidInputError

text \<open>
  A thrown value. \<open>Thrown\<close> is an error object: its class, its \<open>message\<close>, and the
  \<open>originalError\<close> a \<open>KeychainError\<close> stores. \<open>ThrownValue\<close> is any other value that a
  \<open>throw\<close> or a rejected promise can carry: a primitive, \<open>null\<close> or \<open>undefined\<close>.
  \<open>OutsideFragment\<close> is not a JavaScript error: it marks a pattern text that the
  regular-expression fragment modelled below does not cover, so that nothing is stated
  about such patterns.
\<close>

datatype error =
    Thrown errname string "error option"
  | ThrownValue jsvalue
  | OutsideFragment

text \<open>
  The text that \<^verbatim>\<open>`${error.message}`\<close> gives for a caught value: the message of an error
  object; \<open>undefined\<close> for a primitive, which has no such property; reading a property of
  \<open>null\<close> or \<open>undefined\<close> throws a TypeError.
\<close>

fun messageText :: "error \<Rightarrow> error + string" where
  "messageText (Thrown n m c) = Inr m"
| "messageText (ThrownValue JNull) = Inl (Thrown TypeError ''Cannot read properties of null'' None)"
| "messageText (ThrownValue JUndefined) =
     Inl (Thrown TypeError ''Cannot read properties of undefined'' None)"
| "messageText (ThrownValue v) = Inr ''undefined''"
| "messageText OutsideFragment = Inr []"

text \<open>
  An environment is an object: its own enumerable properties, as the list of entries in
  the order in which they were inserted. The keys of an object are distinct.
\<close>

type_synonym env = "(string \<times> jsvalue) list"

text \<open>
  A key is an array index when it is the canonical decimal text of an integer from 0 to
  \<open>2\<^sup>3\<^sup>2 - 2\<close>: digits only, and no leading zero but in \<open>0\<close> itself.
\<close>

definition isDigit :: "char \<Rightarrow> bool" where
  "isDigit c = (48 \<le> (of_char c :: nat) \<and> (of_char c :: nat) \<le> 57)"

definition numericValue :: "string \<Rightarrow> int" where
  "numericValue k = foldl (\<lambda>n c. 10 * n + ((of_char c :: int) - 48)) 0 k"

definition isArrayIndex :: "string \<Rightarrow> bool" where
  "isArrayIndex k =
     (k \<noteq> [] \<and> list_all isDigit k \<and> (length k = 1 \<or> hd k \<noteq> CHR ''0'') \<and>
      numericValue k < 4294967295)"

text \<open>
  The order in which \<open>Object.entries\<close> and the spread \<open>{ ...env }\<close> enumerate the own
  properties of an object (OrdinaryOwnPropertyKeys): first the keys that are array indices,
  in ascending numeric order, then all other keys in the order of their insertion.
\<close>

definition objectEntries :: "env \<Rightarrow> env" where
  "objectEntries env =
     sort_key (\<lambda>(k, v). numericValue k) (filter (\<lambda>(k, v). isArrayIndex k) env) @
     filter (\<lambda>(k, v). \<not> isArrayIndex k) env"

text \<open>\<open>Boolean(v)\<close>: the truthiness that \<open>if (keychain)\<close> tests.\<close>

fun truthy :: "jsvalue \<Rightarrow> bool" where
  "truthy (JString s) = (s \<noteq> [])"
| "truthy (JNumber n) = (n \<noteq> 0)"
| "truthy (JBoolean b) = b"
| "truthy JNull = False"
| "truthy JUndefined = False"

text \<open>The characters of a value that is known to be a string.\<close>

fun stringOf :: "jsvalue \<Rightarrow> string" where
  "stringOf (JString s) = s"
| "stringOf v = []"

subsection \<open>String.prototype.split, indexOf and replace\<close>

text \<open>\<open>str.split(sep)\<close> for a separator of one code unit: never an empty array.\<close>

fun jsSplit :: "char \<Rightarrow> string \<Rightarrow> string list" where
  "jsSplit sep [] = [[]]"
| "jsSplit sep (c # cs) =
     (if c = sep then [] # jsSplit sep cs
      else (c # hd (jsSplit sep cs)) # tl (jsSplit sep cs))"

text \<open>\<open>arr[i]\<close>: \<open>undefined\<close> beyond the end of the array.\<close>

definition element :: "string list \<Rightarrow> nat \<Rightarrow> jsvalue" where
  "element arr i = (if i < length arr then JString (arr ! i) else JUndefined)"

text \<open>
  \<open>const [service, account] = path.split("/")\<close>: the first two segments; every further
  segment is dropped, and \<open>account\<close> is \<open>undefined\<close> when the path has no \<open>/\<close>.
\<close>

definition splitPath :: "string \<Rightarrow> jsvalue \<times> jsvalue" where
  "splitPath path =
     (let parts = jsSplit (CHR ''/'') path in (element parts 0, element parts 1))"

text \<open>
  The first occurrence of \<open>search\<close> in \<open>str\<close>, as the text before it and the text after
  it (what \<open>indexOf\<close> finds).
\<close>

fun splitFirst :: "string \<Rightarrow> string \<Rightarrow> (string \<times> string) option" where
  "splitFirst search [] = (if search = [] then Some ([], []) else None)"
| "splitFirst search (c # cs) =
     (if take (length search) (c # cs) = search
      then Some ([], drop (length search) (c # cs))
      else (case splitFirst search cs of
              None \<Rightarrow> None
            | Some (preceding, following) \<Rightarrow> Some (c # preceding, following)))"

text \<open>
  GetSubstitution of ECMA-262 for a string pattern (no captures, no named groups): in the
  replacement text \<open>$$\<close> stands for \<open>$\<close>, \<open>$&\<close> for the matched text, \<open>$`\<close> for the text
  before the match and \<open>$'\<close> for the text after it; every other \<open>$\<close> is literal.
\<close>

fun getSubstitution :: "string \<Rightarrow> string \<Rightarrow> string \<Rightarrow> string \<Rightarrow> string" where
  "getSubstitution matched preceding following [] = []"
| "getSubstitution matched preceding following [c] = [c]"
| "getSubstitution matched preceding following (c # d # r) =
     (if c = CHR ''$'' \<and> d = CHR ''$'' then CHR ''$'' # getSubstitution matched preceding following r
      else if c = CHR ''$'' \<and> d = CHR ''&'' then matched @ getSubstitution matched preceding following r
      else if c = CHR ''$'' \<and> d = CHR 0x60 then preceding @ getSubstitution matched preceding following r
      else if c = CHR ''$'' \<and> d = CHR 0x27 then following @ getSubstitution matched preceding following r
      else c # getSubstitution matched preceding following (d # r))"

text \<open>
  \<open>str.replace(search, replacement)\<close> with a string \<open>search\<close>: only the first occurrence
  is replaced, and the replacement text is expanded by GetSubstitution.
\<close>

definition jsReplace :: "string \<Rightarrow> string \<Rightarrow> string \<Rightarrow> string" where
  "jsReplace str search replacement =
     (case splitFirst search str of
        None \<Rightarrow> str
      | Some (preceding, following) \<Rightarrow>
          preceding @ getSubstitution search preceding following replacement @ following)"

text \<open>\<open>str.replace(/c/g, "\\c")\<close>: a backslash put before every occurrence of \<open>c\<close>.\<close>

fun escapeChar :: "char \<Rightarrow> string \<Rightarrow> string" where
  "escapeChar c [] = []"
| "escapeChar c (x # xs) =
     (if x = c then CHR 0x5C # x # escapeChar c xs else x # escapeChar c xs)"

section \<open>The reference pattern\<close>

text \<open>
  Both engines build
  \<^verbatim>\<open>new RegExp(`${prefix.replace(/\$/g, "\\$").replace(/\(/g, "\\(")}(.+?)${suffix.replace(/\)/g, "\\)")}`, "g")\<close>.
  Only \<open>$\<close> and \<open>(\<close> are escaped in the prefix and only \<open>)\<close> in the suffix.
\<close>

definition escapePrefix :: "string \<Rightarrow> string" where
  "escapePrefix prefix = escapeChar (CHR ''('') (escapeChar (CHR ''$'') prefix)"

definition escapeSuffix :: "string \<Rightarrow> string" where
  "escapeSuffix suffix = escapeChar (CHR '')'') suffix"

definition patternSource :: "string \<Rightarrow> string \<Rightarrow> string" where
  "patternSource prefix suffix = escapePrefix prefix @ ''(.+?)'' @ escapeSuffix suffix"

text \<open>
  The fragment of ECMA-262 patterns that is modelled: a pattern character that is not a
  syntax character matches itself, a backslash before a character that is neither a letter
  nor a digit makes it literal, and \<open>.\<close> matches any code unit but a line terminator.
  Every other construct (assertions, quantifiers, classes, groups, alternatives, letter and
  digit escapes) is outside the fragment.
\<close>

datatype atom = Lit char | AnyChar

definition isSyntaxCharacter :: "char \<Rightarrow> bool" where
  "isSyntaxCharacter c = (c \<in> set (CHR 0x5C # ''^$.*+?()[]{}|''))"

definition isAlphaNumeric :: "char \<Rightarrow> bool" where
  "isAlphaNumeric c =
     (let n = (of_char c :: nat) in
      (48 \<le> n \<and> n \<le> 57) \<or> (65 \<le> n \<and> n \<le> 90) \<or> (97 \<le> n \<and> n \<le> 122))"

definition isLineTerminator :: "char \<Rightarrow> bool" where
  "isLineTerminator c = (c = CHR 0x0A \<or> c = CHR 0x0D)"

fun parseAtoms :: "string \<Rightarrow> atom list option" where
  "parseAtoms [] = Some []"
| "parseAtoms [c] =
     (if c = CHR ''.'' then Some [AnyChar]
      else if isSyntaxCharacter c then None
      else Some [Lit c])"
| "parseAtoms (c # d # r) =
     (if c = CHR 0x5C then
        (if isAlphaNumeric d then None else map_option ((#) (Lit d)) (parseAtoms r))
      else if c = CHR ''.'' then map_option ((#) AnyChar) (parseAtoms (d # r))
      else if isSyntaxCharacter c then None
      else map_option ((#) (Lit c)) (parseAtoms (d # r)))"

text \<open>
  The compiled pattern: the atoms of the prefix part and of the suffix part, with the lazy
  group \<open>(.+?)\<close> between them.
\<close>

type_synonym regex = "atom list \<times> atom list"

definition compile :: "string \<Rightarrow> string \<Rightarrow> error + regex" where
  "compile prefix suffix =
     (case parseAtoms (escapePrefix prefix) of
        None \<Rightarrow> Inl OutsideFragment
      | Some p \<Rightarrow>
          (case parseAtoms (escapeSuffix suffix) of
             None \<Rightarrow> Inl OutsideFragment
           | Some s \<Rightarrow> Inr (p, s)))"

fun atomMatches :: "atom \<Rightarrow> char \<Rightarrow> bool" where
  "atomMatches (Lit d) c = (c = d)"
| "atomMatches AnyChar c = (\<not> isLineTerminator c)"

text \<open>Matching a run of atoms at the head of the text; the result is the text left.\<close>

fun matchAtoms :: "atom list \<Rightarrow> string \<Rightarrow> string option" where
  "matchAtoms [] s = Some s"
| "matchAtoms (a # as) [] = None"
| "matchAtoms (a # as) (c # cs) = (if atomMatches a c then matchAtoms as cs else None)"

text \<open>
  \<open>(.+?)\<close> followed by the suffix: the shortest non-empty run of code units, none a line
  terminator, after which the suffix matches. The result is the capture and the text left
  after the suffix.
\<close>

fun lazyCapture :: "atom list \<Rightarrow> string \<Rightarrow> (string \<times> string) option" where
  "lazyCapture suf [] = None"
| "lazyCapture suf (c # cs) =
     (if isLineTerminator c then None
      else (case matchAtoms suf cs of
              Some rest \<Rightarrow> Some ([c], rest)
            | None \<Rightarrow>
                (case lazyCapture suf cs of
                   None \<Rightarrow> None
                 | Some (cap, rest) \<Rightarrow> Some (c # cap, rest))))"

text \<open>A match that starts exactly at the head of the text: full match, capture, text left.\<close>

definition matchHere :: "regex \<Rightarrow> string \<Rightarrow> (string \<times> string \<times> string) option" where
  "matchHere rx text =
     (case matchAtoms (fst rx) text of
        None \<Rightarrow> None
      | Some afterPrefix \<Rightarrow>
          (case lazyCapture (snd rx) afterPrefix of
             None \<Rightarrow> None
           | Some (cap, rest) \<Rightarrow> Some (take (length text - length rest) text, cap, rest)))"

text \<open>
  \<open>regex.exec(value)\<close> on the text from \<open>lastIndex\<close> on: the leftmost match; the text left
  is where \<open>lastIndex\<close> is put.
\<close>

fun exec :: "regex \<Rightarrow> string \<Rightarrow> (string \<times> string \<times> string) option" where
  "exec rx [] = None"
| "exec rx (c # cs) =
     (case matchHere rx (c # cs) of
        Some m \<Rightarrow> Some m
      | None \<Rightarrow> exec rx cs)"

lemma matchAtoms_length: "matchAtoms as s = Some r \<Longrightarrow> length s = length as + length r"
  by (induction as s rule: matchAtoms.induct) (auto split: if_splits)

lemma lazyCapture_length: "lazyCapture suf s = Some (cap, r) \<Longrightarrow> length r < length s"
proof (induction s arbitrary: cap r)
  case Nil
  then show ?case by simp
next
  case (Cons c cs)
  show ?case
  proof (cases "matchAtoms suf cs")
    case (Some rest)
    with Cons.prems have "r = rest"
      by (simp split: if_splits)
    with Some show ?thesis
      by (simp add: matchAtoms_length)
  next
    case None
    with Cons.prems obtain cap' where "lazyCapture suf cs = Some (cap', r)"
      by (auto split: if_splits option.splits)
    then have "length r < length cs"
      by (rule Cons.IH)
    then show ?thesis by simp
  qed
qed

lemma matchHere_length: "matchHere rx s = Some (full, cap, r) \<Longrightarrow> length r < length s"
  by (auto simp: matchHere_def split: option.splits
      dest!: matchAtoms_length lazyCapture_length)

lemma exec_length: "exec rx s = Some (full, cap, r) \<Longrightarrow> length r < length s"
proof (induction s)
  case Nil
  then show ?case by simp
next
  case (Cons c cs)
  show ?case
  proof (cases "matchHere rx (c # cs)")
    case None
    with Cons show ?thesis by fastforce
  next
    case (Some m)
    with Cons.prems have "matchHere rx (c # cs) = Some (full, cap, r)"
      by simp
    then show ?thesis
      by (rule matchHere_length)
  qed
qed

text \<open>
  The loop \<open>while ((match = regex.exec(value)) !== null)\<close>: \<open>value\<close> is never changed and the
  pattern has the \<open>g\<close> flag, so each call resumes where the match before it ended. The
  matches, as pairs \<open>[fullMatch, path]\<close>, in the order the loop body sees them:
\<close>

function findAll :: "regex \<Rightarrow> string \<Rightarrow> (string \<times> string) list" where
  "findAll rx text =
     (case exec rx text of
        None \<Rightarrow> []
      | Some (fullMatch, path, rest) \<Rightarrow> (fullMatch, path) # findAll rx rest)"
  by pat_completeness auto
termination
  by (relation "measure (\<lambda>(rx, text). length text)") (auto dest: exec_length)

declare findAll.simps [simp del]

section \<open>The provider capability and the utility functions\<close>

text \<open>
  A provider is an object with four asynchronous methods. Every call runs to its end
  before the next one starts, so a call is a function from the provider's state (\<open>'p\<close>)
  to a result, thrown or returned, and the state after it.
\<close>

record 'p provider =
  provider_set :: "jsvalue \<Rightarrow> jsvalue \<Rightarrow> string \<Rightarrow> 'p \<Rightarrow> (error + bool) \<times> 'p"
  provider_get :: "jsvalue \<Rightarrow> jsvalue \<Rightarrow> 'p \<Rightarrow> (error + string) \<times> 'p"
  provider_exists :: "jsvalue \<Rightarrow> jsvalue \<Rightarrow> 'p \<Rightarrow> (error + bool) \<times> 'p"
  provider_delete :: "jsvalue \<Rightarrow> jsvalue \<Rightarrow> 'p \<Rightarrow> (error + bool) \<times> 'p"

definition storeSecret ::
  "jsvalue \<Rightarrow> jsvalue \<Rightarrow> string \<Rightarrow> 'p provider \<Rightarrow> 'p \<Rightarrow> (error + bool) \<times> 'p" where
  "storeSecret service account secret provider = provider_set provider service account secret"

definition retrieveSecret ::
  "jsvalue \<Rightarrow> jsvalue \<Rightarrow> 'p provider \<Rightarrow> 'p \<Rightarrow> (error + string) \<times> 'p" where
  "retrieveSecret service account provider = provider_get provider service account"

definition secretExists ::
  "jsvalue \<Rightarrow> jsvalue \<Rightarrow> 'p provider \<Rightarrow> 'p \<Rightarrow> (error + bool) \<times> 'p" where
  "secretExists service account provider = provider_exists provider service account"

definition deleteSecret ::
  "jsvalue \<Rightarrow> jsvalue \<Rightarrow> 'p provider \<Rightarrow> 'p \<Rightarrow> (error + bool) \<times> 'p" where
  "deleteSecret service account provider = provider_delete provider service account"

section \<open>resolveSecrets\<close>

text \<open>
  What the \<open>catch\<close> block throws:
  \<^verbatim>\<open>new Error(`Failed to resolve secret for ${key}: ${error.message}`)\<close>, a plain \<open>Error\<close>
  whose message holds the key and the message text of the caught value and that has no
  other property; or the TypeError of reading \<open>error.message\<close> when the caught value is
  \<open>null\<close> or \<open>undefined\<close>.
\<close>

definition resolutionError :: "string \<Rightarrow> error \<Rightarrow> error" where
  "resolutionError key cause =
     (case messageText cause of
        Inl typeError \<Rightarrow> typeError
      | Inr m \<Rightarrow> Thrown Error (''Failed to resolve secret for '' @ key @ '': '' @ m) None)"

text \<open>
  The \<open>while\<close> loop of \<open>resolveSecrets\<close>, for the matches of one value: \<open>newValue\<close> is the
  working copy; what \<open>retrieveSecret\<close> throws is caught and thrown again as a
  \<open>resolutionError\<close>.
\<close>

fun resolveMatches ::
  "'p provider \<Rightarrow> string \<Rightarrow> (string \<times> string) list \<Rightarrow> string \<Rightarrow> 'p \<Rightarrow> (error + string) \<times> 'p" where
  "resolveMatches provider key [] newValue p = (Inr newValue, p)"
| "resolveMatches provider key ((fullMatch, path) # ms) newValue p =
     (case splitPath path of
        (service, account) \<Rightarrow>
          (case retrieveSecret service account provider p of
             (Inl cause, p') \<Rightarrow> (Inl (resolutionError key cause), p')
           | (Inr secret, p') \<Rightarrow>
               resolveMatches provider key ms (jsReplace newValue fullMatch secret) p'))"

text \<open>
  The \<open>for\<close> loop over \<open>Object.entries(result)\<close>: the entries are a snapshot taken before
  the loop, \<open>result\<close> is the copy that \<open>result[key] = newValue\<close> updates when the value had
  a match.
\<close>

fun resolveEntries ::
  "'p provider \<Rightarrow> regex \<Rightarrow> env \<Rightarrow> env \<Rightarrow> 'p \<Rightarrow> (error + env) \<times> 'p" where
  "resolveEntries provider rx [] result p = (Inr result, p)"
| "resolveEntries provider rx ((key, v) # entries) result p =
     (case v of
        JString s \<Rightarrow>
          (case resolveMatches provider key (findAll rx s) s p of
             (Inl e, p') \<Rightarrow> (Inl e, p')
           | (Inr newValue, p') \<Rightarrow>
               resolveEntries provider rx entries
                 (if findAll rx s \<noteq> [] then AList.update key (JString newValue) result
                  else result) p')
      | _ \<Rightarrow> resolveEntries provider rx entries result p)"

text \<open>
  \<open>const result = { ...env }\<close> creates the properties of the copy in the order in which
  those of \<open>env\<close> are enumerated; then the pattern is built, and the loop runs over the
  entries of the copy.
\<close>

definition spread :: "env \<Rightarrow> env" where
  "spread env = objectEntries env"

definition resolveSecrets ::
  "env \<Rightarrow> string \<Rightarrow> string \<Rightarrow> 'p provider \<Rightarrow> 'p \<Rightarrow> (error + env) \<times> 'p" where
  "resolveSecrets env prefix suffix provider p =
     (case compile prefix suffix of
        Inl e \<Rightarrow> (Inl e, p)
      | Inr rx \<Rightarrow> resolveEntries provider rx (objectEntries (spread env)) (spread env) p)"

section \<open>The facade: class TaemnoOS\<close>

record options =
  envPrefix :: string
  envSuffix :: string

definition defaultOptions :: options where
  "defaultOptions = \<lparr>envPrefix = ''$(taemno os://'', envSuffix = '')''\<rparr>"

definition resolveEnvironment ::
  "options \<Rightarrow> 'p provider \<Rightarrow> env \<Rightarrow> 'p \<Rightarrow> (error + env) \<times> 'p" where
  "resolveEnvironment opts provider env =
     resolveSecrets env (envPrefix opts) (envSuffix opts) provider"

record missing =
  key :: string
  service :: jsvalue
  account :: jsvalue

record verification =
  success :: bool
  missingSecrets :: "missing list"

text \<open>The \<open>while\<close> loop of \<open>verifyEnvironment\<close>, for the matches of one value.\<close>

fun verifyMatches ::
  "'p provider \<Rightarrow> string \<Rightarrow> (string \<times> string) list \<Rightarrow> missing list \<Rightarrow> 'p
     \<Rightarrow> (error + missing list) \<times> 'p" where
  "verifyMatches provider k [] ms p = (Inr ms, p)"
| "verifyMatches provider k ((fullMatch, path) # rest) ms p =
     (case splitPath path of
        (svc, acct) \<Rightarrow>
          (case secretExists svc acct provider p of
             (Inl e, p') \<Rightarrow> (Inl e, p')
           | (Inr found, p') \<Rightarrow>
               verifyMatches provider k rest
                 (if \<not> found then ms @ [\<lparr>key = k, service = svc, account = acct\<rparr>] else ms) p'))"

fun verifyEntries ::
  "'p provider \<Rightarrow> regex \<Rightarrow> env \<Rightarrow> missing list \<Rightarrow> 'p \<Rightarrow> (error + missing list) \<times> 'p" where
  "verifyEntries provider rx [] ms p = (Inr ms, p)"
| "verifyEntries provider rx ((k, v) # entries) ms p =
     (case v of
        JString s \<Rightarrow>
          (case verifyMatches provider k (findAll rx s) ms p of
             (Inl e, p') \<Rightarrow> (Inl e, p')
           | (Inr ms', p') \<Rightarrow> verifyEntries provider rx entries ms' p')
      | _ \<Rightarrow> verifyEntries provider rx entries ms p)"

definition verifyEnvironment ::
  "options \<Rightarrow> 'p provider \<Rightarrow> env \<Rightarrow> 'p \<Rightarrow> (error + verification) \<times> 'p" where
  "verifyEnvironment opts provider env p =
     (case compile (envPrefix opts) (envSuffix opts) of
        Inl e \<Rightarrow> (Inl e, p)
      | Inr rx \<Rightarrow>
          (case verifyEntries provider rx (objectEntries env) [] p of
             (Inl e, p') \<Rightarrow> (Inl e, p')
           | (Inr ms, p') \<Rightarrow> (Inr \<lparr>success = (ms = []), missingSecrets = ms\<rparr>, p')))"

section \<open>The macOS provider (providers/darwin.js)\<close>

subsection \<open>Input validation\<close>

text \<open>
  \<open>isValidInput\<close> tests its input against the literal \<^verbatim>\<open>/^[a-zA-Z0-9._-@#]+$/\<close>. The
  members of a character class are read from left to right: \<open>x-y\<close> is the range from \<open>x\<close>
  to \<open>y\<close>, any other character stands for itself. ECMA-262 makes a range whose first code
  unit is greater than its last a SyntaxError.
\<close>

definition inputClass :: string where
  "inputClass = ''a-zA-Z0-9._-@#''"

fun classRanges :: "string \<Rightarrow> (char \<times> char) list" where
  "classRanges (a # d # b # rest) =
     (if d = CHR ''-'' then (a, b) # classRanges rest
      else (a, a) # classRanges (d # b # rest))"
| "classRanges (a # rest) = (a, a) # classRanges rest"
| "classRanges [] = []"

definition outOfOrder :: "char \<times> char \<Rightarrow> bool" where
  "outOfOrder r = ((of_char (snd r) :: nat) < of_char (fst r))"

definition inRange :: "char \<Rightarrow> char \<times> char \<Rightarrow> bool" where
  "inRange c r = ((of_char (fst r) :: nat) \<le> of_char c \<and> (of_char c :: nat) \<le> of_char (snd r))"

definition compileClass :: "string \<Rightarrow> error + (char \<times> char) list" where
  "compileClass body =
     (if list_ex outOfOrder (classRanges body)
      then Inl (Thrown SyntaxError
                  ''Invalid regular expression: Range out of order in character class'' None)
      else Inr (classRanges body))"

text \<open>\<^verbatim>\<open>/^[body]+$/.test(input)\<close>: the input is not empty and all of it is in the class.\<close>

definition testClass :: "string \<Rightarrow> string \<Rightarrow> error + bool" where
  "testClass body input =
     (case compileClass body of
        Inl e \<Rightarrow> Inl e
      | Inr ranges \<Rightarrow> Inr (input \<noteq> [] \<and> list_all (\<lambda>c. list_ex (inRange c) ranges) input))"

text \<open>
  \<^verbatim>\<open>input.constructor.name === 'String' && /.../.test(input) && input.length <= 255\<close>.
  Reading \<open>constructor\<close> of \<open>null\<close> or \<open>undefined\<close> throws a TypeError; a number or a boolean
  has another constructor, and \<open>&&\<close> stops there. The literal is evaluated when control
  reaches it, as an engine that compiles literals on first use does; an engine that
  reports a malformed literal when it parses the file rejects the whole module instead,
  and then none of the functions below can be called at all.
\<close>

fun isValidInput :: "jsvalue \<Rightarrow> error + bool" where
  "isValidInput (JString s) =
     (case testClass inputClass s of
        Inl e \<Rightarrow> Inl e
      | Inr ok \<Rightarrow> Inr (ok \<and> length s \<le> 255))"
| "isValidInput (JNumber n) = Inr False"
| "isValidInput (JBoolean b) = Inr False"
| "isValidInput JNull = Inl (Thrown TypeError ''Cannot read properties of null'' None)"
| "isValidInput JUndefined = Inl (Thrown TypeError ''Cannot read properties of undefined'' None)"

definition validateInputs :: "jsvalue \<Rightarrow> jsvalue \<Rightarrow> jsvalue \<Rightarrow> error + unit" where
  "validateInputs svc acct keychain =
     (case isValidInput svc of
        Inl e \<Rightarrow> Inl e
      | Inr okService \<Rightarrow>
          if \<not> okService then Inl (Thrown InvalidInputError ''Invalid service name'' None)
          else (case isValidInput acct of
                  Inl e \<Rightarrow> Inl e
                | Inr okAccount \<Rightarrow>
                    if \<not> okAccount then Inl (Thrown InvalidInputError ''Invalid account name'' None)
                    else if truthy keychain then
                      (case isValidInput keychain of
                         Inl e \<Rightarrow> Inl e
                       | Inr okKeychain \<Rightarrow>
                           if \<not> okKeychain
                           then Inl (Thrown InvalidInputError ''Invalid keychain name'' None)
                           else Inr ())
                    else Inr ()))"

subsection \<open>The security command\<close>

text \<open>
  The keychain is reached only by running \<open>/usr/bin/security\<close>. The tool is a parameter: a
  function from the argument vector, the text written to its standard input and the state
  of the world (\<open>'w\<close>) to its exit code, its standard output and the world after it. The
  system state also records every argument vector the tool was run with.
\<close>

type_synonym 'w backend = "string list \<Rightarrow> string \<Rightarrow> 'w \<Rightarrow> (nat \<times> string) \<times> 'w"

record 'w system =
  world :: 'w
  calls :: "string list list"

definition SECURITY_COMMAND :: string where
  "SECURITY_COMMAND = ''/usr/bin/security''"

definition run ::
  "'w backend \<Rightarrow> string list \<Rightarrow> string \<Rightarrow> 'w system \<Rightarrow> (nat \<times> string) \<times> 'w system" where
  "run be args input st =
     (case be args input (world st) of
        (r, w) \<Rightarrow> (r, \<lparr>world = w, calls = calls st @ [args]\<rparr>))"

text \<open>The promisified \<open>execFile\<close>: rejected when the exit code is not 0.\<close>

definition execAsync ::
  "'w backend \<Rightarrow> string list \<Rightarrow> 'w system \<Rightarrow> (error + string) \<times> 'w system" where
  "execAsync be args st =
     (case run be args [] st of
        ((code, out), st') \<Rightarrow>
          (if code = 0 then Inr out
           else Inl (Thrown Error
                       (''Command failed: '' @ SECURITY_COMMAND @ concat (map ((@) '' '') args))
                       None),
           st'))"

fun decimal :: "nat \<Rightarrow> string" where
  "decimal n =
     (if n < 10 then [char_of (48 + n)]
      else decimal (n div 10) @ [char_of (48 + n mod 10)])"

declare decimal.simps [simp del]

text \<open>\<open>str.trim()\<close>: white space and line terminators removed at both ends.\<close>

definition isWhiteSpace :: "char \<Rightarrow> bool" where
  "isWhiteSpace c = (c \<in> set [CHR 0x09, CHR 0x0A, CHR 0x0B, CHR 0x0C, CHR 0x0D, CHR 0x20, CHR 0xA0])"

definition trim :: "string \<Rightarrow> string" where
  "trim s = rev (dropWhile isWhiteSpace (rev (dropWhile isWhiteSpace s)))"

subsection \<open>set, get, exists and delete\<close>

definition keychainArgs :: "jsvalue \<Rightarrow> string list" where
  "keychainArgs keychain = (if truthy keychain then [''-k'', stringOf keychain] else [])"

definition darwin_set ::
  "'w backend \<Rightarrow> jsvalue \<Rightarrow> jsvalue \<Rightarrow> string \<Rightarrow> jsvalue \<Rightarrow> 'w system
     \<Rightarrow> (error + bool) \<times> 'w system" where
  "darwin_set be svc acct secret keychain st =
     (case validateInputs svc acct keychain of
        Inl e \<Rightarrow> (Inl e, st)
      | Inr u \<Rightarrow>
          (let args = [''add-generic-password'', ''-s'',
                       [CHR 0x27] @ stringOf svc @ [CHR 0x27],
                       ''-a'', stringOf svc, ''-a'', stringOf acct] @ keychainArgs keychain;
               st1 = snd (execAsync be
                       [''delete-generic-password'', ''-s'', stringOf svc, ''-a'', stringOf acct] st)
           in (case run be (args @ [''-U'', ''-w'']) secret st1 of
                 ((code, out), st2) \<Rightarrow>
                   (if code = 0 then Inr True
                    else Inl (Thrown KeychainError ''Failed to store secret''
                           (Some (Thrown KeychainError ''Failed to store secret''
                              (Some (Thrown Error
                                 (''security command failed with code '' @ decimal code) None))))),
                    st2))))"

definition darwin_get ::
  "'w backend \<Rightarrow> jsvalue \<Rightarrow> jsvalue \<Rightarrow> jsvalue \<Rightarrow> 'w system \<Rightarrow> (error + string) \<times> 'w system" where
  "darwin_get be svc acct keychain st =
     (case validateInputs svc acct keychain of
        Inl e \<Rightarrow> (Inl e, st)
      | Inr u \<Rightarrow>
          (case execAsync be
                  ([''find-generic-password'', ''-s'', stringOf svc, ''-a'', stringOf acct, ''-w'']
                   @ keychainArgs keychain) st of
             (Inl e, st') \<Rightarrow>
               (Inl (Thrown KeychainError
                       (''Secret not found: '' @ stringOf svc @ ''/'' @ stringOf acct) (Some e)),
                st')
           | (Inr out, st') \<Rightarrow> (Inr (trim out), st')))"

text \<open>\<open>try { await get(...); return true; } catch (error) { return false; }\<close>\<close>

definition darwin_exists ::
  "'w backend \<Rightarrow> jsvalue \<Rightarrow> jsvalue \<Rightarrow> jsvalue \<Rightarrow> 'w system \<Rightarrow> (error + bool) \<times> 'w system" where
  "darwin_exists be svc acct keychain st =
     (case darwin_get be svc acct keychain st of
        (Inl e, st') \<Rightarrow> (Inr False, st')
      | (Inr secret, st') \<Rightarrow> (Inr True, st'))"

definition darwin_deleteSecret ::
  "'w backend \<Rightarrow> jsvalue \<Rightarrow> jsvalue \<Rightarrow> jsvalue \<Rightarrow> 'w system \<Rightarrow> (error + bool) \<times> 'w system" where
  "darwin_deleteSecret be svc acct keychain st =
     (case validateInputs svc acct keychain of
        Inl e \<Rightarrow> (Inl e, st)
      | Inr u \<Rightarrow>
          (case execAsync be
                  ([''delete-generic-password'', ''-s'', stringOf svc, ''-a'', stringOf acct]
                   @ keychainArgs keychain) st of
             (Inl e, st') \<Rightarrow> (Inr False, st')
           | (Inr out, st') \<Rightarrow> (Inr True, st')))"

text \<open>\<open>module.exports = { set, get, exists, delete: deleteSecret }\<close>; the facade passes no keychain.\<close>

definition darwinProvider :: "'w backend \<Rightarrow> 'w system provider" where
  "darwinProvider be =
     \<lparr>provider_set = (\<lambda>svc acct secret. darwin_set be svc acct secret JNull),
      provider_get = (\<lambda>svc acct. darwin_get be svc acct JNull),
      provider_exists = (\<lambda>svc acct. darwin_exists be svc acct JNull),
      provider_delete = (\<lambda>svc acct. darwin_deleteSecret be svc acct JNull)\<rparr>"

text \<open>
  \<open>require("./darwin.js")\<close>. ECMA-262 makes a malformed regular expression literal an
  early error: the source text is rejected when it is parsed, before any of it runs, and
  \<open>require\<close> throws the SyntaxError. (An engine that checks a literal only when it is
  first evaluated loads the file; on it the functions above exist and behave as defined.)
\<close>

definition requireDarwin :: "'w backend \<Rightarrow> error + 'w system provider" where
  "requireDarwin be =
     (case compileClass inputClass of
        Inl syntaxError \<Rightarrow> Inl syntaxError
      | Inr ranges \<Rightarrow> Inr (darwinProvider be))"

section \<open>Provider selection (providers/index.js)\<close>

text \<open>
  The module first evaluates \<open>require("./darwin.js")\<close>, whose outcome (the exported object,
  or what loading the file threw) is the first argument, and then switches on
  \<open>os.platform()\<close>. \<open>linuxProvider\<close> and \<open>win32Provider\<close> are declared nowhere: their
  \<open>require\<close> lines are comments, so reading them throws a ReferenceError.
\<close>

definition selectProvider :: "error + 'm \<Rightarrow> string \<Rightarrow> error + 'm" where
  "selectProvider darwinModule platform =
     (case darwinModule of
        Inl e \<Rightarrow> Inl e
      | Inr darwinExports \<Rightarrow>
          if platform = ''darwin'' then Inr darwinExports
          else if platform = ''linux''
            then Inl (Thrown ReferenceError ''linuxProvider is not defined'' None)
          else if platform = ''win32''
            then Inl (Thrown ReferenceError ''win32Provider is not defined'' None)
          else Inl (Thrown Error (''Unsupported platform: '' @ platform) None))"

section \<open>References, and what the provider is asked\<close>

text \<open>
  The references of an environment: for every entry with a string value, in the order of
  \<open>Object.entries\<close>, and for every match in that value from left to right, the key and the
  service and account that \<open>path.split("/")\<close> yields.
\<close>

definition valueReferences :: "regex \<Rightarrow> string \<Rightarrow> jsvalue \<Rightarrow> (string \<times> jsvalue \<times> jsvalue) list" where
  "valueReferences rx k v =
     (case v of
        JString s \<Rightarrow> map (\<lambda>(fullMatch, path). (k, splitPath path)) (findAll rx s)
      | _ \<Rightarrow> [])"

definition references :: "regex \<Rightarrow> env \<Rightarrow> (string \<times> jsvalue \<times> jsvalue) list" where
  "references rx env = concat (map (\<lambda>(k, v). valueReferences rx k v) env)"


text \<open>The entries for the references whose answer was \<open>false\<close>, in the order of the references.\<close>

definition missingOf :: "(string \<times> jsvalue \<times> jsvalue) list \<Rightarrow> bool list \<Rightarrow> missing list" where
  "missingOf refs answers =
     map (\<lambda>((k, svc, acct), b). \<lparr>key = k, service = svc, account = acct\<rparr>)
       (filter (\<lambda>(r, b). \<not> b) (zip refs answers))"

text \<open>
  \<open>provider.get\<close> called once for every reference of a list, in order, until a call
  throws: the secrets, or the key of the reference at which the call threw and the error.
\<close>

fun getAnswers ::
  "'p provider \<Rightarrow> (string \<times> jsvalue \<times> jsvalue) list \<Rightarrow> 'p
     \<Rightarrow> ((string \<times> error) + string list) \<times> 'p" where
  "getAnswers provider [] p = (Inr [], p)"
| "getAnswers provider ((k, svc, acct) # refs) p =
     (case provider_get provider svc acct p of
        (Inl e, p') \<Rightarrow> (Inl (k, e), p')
      | (Inr secret, p') \<Rightarrow>
          (case getAnswers provider refs p' of
             (Inl ke, p'') \<Rightarrow> (Inl ke, p'')
           | (Inr secrets, p'') \<Rightarrow> (Inr (secret # secrets), p'')))"

text \<open>
  What a run threw, if anything: for \<open>resolveSecrets\<close> the error itself, for the calls of
  \<open>provider.get\<close> the error that \<open>resolveSecrets\<close> makes of the key and the cause.
\<close>

definition thrown :: "error + 'a \<Rightarrow> error option" where
  "thrown r = (case r of Inl e \<Rightarrow> Some e | Inr x \<Rightarrow> None)"

definition failure :: "(string \<times> error) + 'a \<Rightarrow> error option" where
  "failure r = (case r of Inl (k, cause) \<Rightarrow> Some (resolutionError k cause) | Inr x \<Rightarrow> None)"

section \<open>References, as the specification words them\<close>

text \<open>
  The matcher of the specification (its section 4.1) finds every non-overlapping
  occurrence, from left to right, of the prefix, a capture and the suffix, where prefix and
  suffix are literal text and the capture is the shortest non-empty span up to the next
  occurrence of the suffix. These definitions follow those words, not the code.
\<close>

fun shortestCapture :: "string \<Rightarrow> string \<Rightarrow> (string \<times> string) option" where
  "shortestCapture suffix [] = None"
| "shortestCapture suffix (c # cs) =
     (if take (length suffix) cs = suffix then Some ([c], drop (length suffix) cs)
      else (case shortestCapture suffix cs of
              None \<Rightarrow> None
            | Some (cap, rest) \<Rightarrow> Some (c # cap, rest)))"

definition occurrenceHere :: "string \<Rightarrow> string \<Rightarrow> string \<Rightarrow> (string \<times> string \<times> string) option" where
  "occurrenceHere prefix suffix str =
     (if take (length prefix) str = prefix then
        (case shortestCapture suffix (drop (length prefix) str) of
           None \<Rightarrow> None
         | Some (cap, rest) \<Rightarrow> Some (prefix @ cap @ suffix, cap, rest))
      else None)"

fun nextOccurrence :: "string \<Rightarrow> string \<Rightarrow> string \<Rightarrow> (string \<times> string \<times> string) option" where
  "nextOccurrence prefix suffix [] = None"
| "nextOccurrence prefix suffix (c # cs) =
     (case occurrenceHere prefix suffix (c # cs) of
        Some m \<Rightarrow> Some m
      | None \<Rightarrow> nextOccurrence prefix suffix cs)"

lemma shortestCapture_length:
  "shortestCapture suffix s = Some (cap, r) \<Longrightarrow> length r < length s"
proof (induction s arbitrary: cap)
  case Nil
  then show ?case by simp
next
  case (Cons c cs)
  show ?case
  proof (cases "take (length suffix) cs = suffix")
    case True
    with Cons.prems show ?thesis by auto
  next
    case False
    with Cons.prems obtain cap' where "shortestCapture suffix cs = Some (cap', r)"
      by (auto split: option.splits)
    then have "length r < length cs"
      by (rule Cons.IH)
    then show ?thesis by simp
  qed
qed

lemma occurrenceHere_length:
  "occurrenceHere prefix suffix s = Some (full, cap, r) \<Longrightarrow> length r < length s"
  by (auto simp: occurrenceHere_def split: if_splits option.splits dest!: shortestCapture_length)

lemma nextOccurrence_length:
  "nextOccurrence prefix suffix s = Some (full, cap, r) \<Longrightarrow> length r < length s"
proof (induction s)
  case Nil
  then show ?case by simp
next
  case (Cons c cs)
  show ?case
  proof (cases "occurrenceHere prefix suffix (c # cs)")
    case None
    with Cons show ?thesis by fastforce
  next
    case (Some m)
    with Cons.prems have "occurrenceHere prefix suffix (c # cs) = Some (full, cap, r)"
      by simp
    then show ?thesis
      by (rule occurrenceHere_length)
  qed
qed

function occurrences :: "string \<Rightarrow> string \<Rightarrow> string \<Rightarrow> (string \<times> string) list" where
  "occurrences prefix suffix str =
     (case nextOccurrence prefix suffix str of
        None \<Rightarrow> []
      | Some (full, cap, rest) \<Rightarrow> (full, cap) # occurrences prefix suffix rest)"
  by pat_completeness auto
termination
  by (relation "measure (\<lambda>(prefix, suffix, str). length str)") (auto dest: nextOccurrence_length)

declare occurrences.simps [simp del]

text \<open>
  The reference occurrences of a list of entries: for every entry with a string value, in
  the order of the list, and for every occurrence in the value from left to right, the key
  with the service and the account of the capture.
\<close>

definition occurrencesIn :: "string \<Rightarrow> string \<Rightarrow> string \<Rightarrow> jsvalue \<Rightarrow> (string \<times> jsvalue \<times> jsvalue) list" where
  "occurrencesIn prefix suffix k v =
     (case v of
        JString s \<Rightarrow> map (\<lambda>(full, cap). (k, splitPath cap)) (occurrences prefix suffix s)
      | _ \<Rightarrow> [])"

definition specReferences :: "string \<Rightarrow> string \<Rightarrow> env \<Rightarrow> (string \<times> jsvalue \<times> jsvalue) list" where
  "specReferences prefix suffix entries =
     concat (map (\<lambda>(k, v). occurrencesIn prefix suffix k v) entries)"

text \<open>
  A prefix or suffix all of whose pattern characters are among those that the code
  escapes, and a value in which no line terminator stands.
\<close>

definition literalPrefix :: "string \<Rightarrow> bool" where
  "literalPrefix prefix =
     list_all (\<lambda>c. c = CHR ''$'' \<or> c = CHR ''('' \<or> \<not> isSyntaxCharacter c) prefix"

definition literalSuffix :: "string \<Rightarrow> bool" where
  "literalSuffix suffix = list_all (\<lambda>c. c = CHR '')'' \<or> \<not> isSyntaxCharacter c) suffix"

definition singleLine :: "string \<Rightarrow> bool" where
  "singleLine s = list_all (\<lambda>c. \<not> isLineTerminator c) s"

fun singleLineValue :: "jsvalue \<Rightarrow> bool" where
  "singleLineValue (JString s) = singleLine s"
| "singleLineValue v = True"

section \<open>Test doubles\<close>

text \<open>
  The mock provider of the test suite: \<open>get\<close> and \<open>exists\<close> answer by a fixed function of
  service and account, \<open>set\<close> and \<open>delete\<close> return \<open>true\<close>; the state counts the calls.
\<close>

definition mockProvider ::
  "(jsvalue \<Rightarrow> jsvalue \<Rightarrow> error + string) \<Rightarrow> (jsvalue \<Rightarrow> jsvalue \<Rightarrow> bool) \<Rightarrow> nat provider" where
  "mockProvider getImpl existsImpl =
     \<lparr>provider_set = (\<lambda>svc acct secret n. (Inr True, Suc n)),
      provider_get = (\<lambda>svc acct n. (getImpl svc acct, Suc n)),
      provider_exists = (\<lambda>svc acct n. (Inr (existsImpl svc acct), Suc n)),
      provider_delete = (\<lambda>svc acct n. (Inr True, Suc n))\<rparr>"

text \<open>Two stand-ins for the security tool: one that finds every item, one that always fails.\<close>

definition foundBackend :: "unit backend" where
  "foundBackend args input w = ((0, ''pw'' @ [CHR 0x0A]), w)"



section \<open>Verification reports the references that are missing\<close>



lemma missingOf_Nil [simp]: "missingOf [] answers = []"
  by (simp add: missingOf_def)




lemma references_Nil [simp]: "references rx [] = []"
  by (simp add: references_def)

lemma references_Cons:
  "references rx ((k, v) # env) = valueReferences rx k v @ references rx env"
  by (simp add: references_def)

lemma valueReferences_nonstring [simp]:
  "valueReferences rx k (JNumber n) = []"
  "valueReferences rx k (JBoolean b) = []"
  "valueReferences rx k JNull = []"
  "valueReferences rx k JUndefined = []"
  by (simp_all add: valueReferences_def)


section \<open>A failing get fails the whole resolution\<close>

lemma getAnswers_append:
  "getAnswers provider (xs @ ys) p =
     (case getAnswers provider xs p of
        (Inl ke, p') \<Rightarrow> (Inl ke, p')
      | (Inr as, p') \<Rightarrow>
          (case getAnswers provider ys p' of
             (Inl ke, p'') \<Rightarrow> (Inl ke, p'')
           | (Inr bs, p'') \<Rightarrow> (Inr (as @ bs), p'')))"
proof (induction xs arbitrary: p)
  case Nil
  then show ?case by (simp split: prod.splits sum.splits)
next
  case (Cons r xs)
  obtain k svc acct where r: "r = (k, svc, acct)"
    by (cases r) auto
  show ?case
    unfolding r by (simp add: Cons.IH split: prod.splits sum.splits)
qed

lemma resolveMatches_answers:
  "thrown (fst (resolveMatches provider k matches newValue p)) =
     failure (fst (getAnswers provider (map (\<lambda>(fullMatch, path). (k, splitPath path)) matches) p))
   \<and> snd (resolveMatches provider k matches newValue p) =
     snd (getAnswers provider (map (\<lambda>(fullMatch, path). (k, splitPath path)) matches) p)"
proof (induction matches arbitrary: newValue p)
  case Nil
  then show ?case by (simp add: thrown_def failure_def)
next
  case (Cons m matches)
  obtain fullMatch path where m: "m = (fullMatch, path)"
    by (cases m) auto
  obtain svc acct where sp: "splitPath path = (svc, acct)"
    by (cases "splitPath path") auto
  show ?case
  proof (cases "provider_get provider svc acct p")
    case (Pair r p1)
    show ?thesis
    proof (cases r)
      case (Inl cause)
      with Pair show ?thesis
        unfolding m by (simp add: sp retrieveSecret_def thrown_def failure_def)
    next
      case (Inr secret)
      from Cons.IH [of "jsReplace newValue fullMatch secret" p1] Pair Inr show ?thesis
        unfolding m
        by (simp add: sp retrieveSecret_def thrown_def failure_def split: prod.splits sum.splits)
    qed
  qed
qed

lemma resolveEntries_answers:
  "thrown (fst (resolveEntries provider rx entries result p)) =
     failure (fst (getAnswers provider (references rx entries) p))
   \<and> snd (resolveEntries provider rx entries result p) =
     snd (getAnswers provider (references rx entries) p)"
proof (induction entries arbitrary: result p)
  case Nil
  then show ?case by (simp add: thrown_def failure_def)
next
  case (Cons entry entries)
  obtain k v where entry: "entry = (k, v)"
    by (cases entry) auto
  show ?case
  proof (cases v)
    case (JString s)
    let ?refs = "map (\<lambda>(fullMatch, path). (k, splitPath path)) (findAll rx s)"
    have refs: "references rx ((k, JString s) # entries) = ?refs @ references rx entries"
      by (simp add: references_Cons valueReferences_def)
    obtain r p1 where rm: "resolveMatches provider k (findAll rx s) s p = (r, p1)"
      by (cases "resolveMatches provider k (findAll rx s) s p") auto
    obtain g p2 where ga: "getAnswers provider ?refs p = (g, p2)"
      by (cases "getAnswers provider ?refs p") auto
    from resolveMatches_answers [of provider k "findAll rx s" s p] rm ga
    have link: "thrown r = failure g" "p1 = p2"
      by simp_all
    show ?thesis
    proof (cases r)
      case (Inl e)
      with link obtain ke where "g = Inl ke"
        by (cases g) (auto simp: thrown_def failure_def)
      with Inl link rm ga show ?thesis
        unfolding entry JString refs
        by (simp add: getAnswers_append thrown_def failure_def)
    next
      case (Inr newValue)
      with link obtain ss where "g = Inr ss"
        by (cases g) (auto simp: thrown_def failure_def split: prod.splits)
      with Inr link rm ga Cons.IH show ?thesis
        unfolding entry JString refs
        by (simp add: getAnswers_append thrown_def failure_def split: prod.splits sum.splits)
    qed
  next
    case (JNumber n)
    then show ?thesis
      unfolding entry by (simp add: references_Cons Cons.IH)
  next
    case (JBoolean b)
    then show ?thesis
      unfolding entry by (simp add: references_Cons Cons.IH)
  next
    case JNull
    then show ?thesis
      unfolding entry by (simp add: references_Cons Cons.IH)
  next
    case JUndefined
    then show ?thesis
      unfolding entry by (simp add: references_Cons Cons.IH)
  qed
qed

lemma references_keys: "(k, sa) \<in> set (references rx env) \<Longrightarrow> k \<in> fst ` set env"
  by (induction env) (auto simp: references_Cons valueReferences_def split: jsvalue.splits)

lemma getAnswers_failure_key:
  "getAnswers provider refs p = (Inl (k, cause), p') \<Longrightarrow> k \<in> fst ` set refs"
proof (induction refs arbitrary: p)
  case Nil
  then show ?case by simp
next
  case (Cons r refs)
  obtain k0 svc acct where r: "r = (k0, svc, acct)"
    by (cases r) auto
  from Cons show ?case
    unfolding r by (fastforce split: prod.splits sum.splits)
qed

section \<open>The loop over the entries keeps the keys\<close>

lemma resolveEntries_keys:
  "resolveEntries provider rx entries result p = (Inr r, p') \<Longrightarrow>
   fst ` set entries \<subseteq> fst ` set result \<Longrightarrow> map fst r = map fst result"
proof (induction entries arbitrary: result p)
  case Nil
  then show ?case by simp
next
  case (Cons entry entries)
  obtain k v where entry: "entry = (k, v)"
    by (cases entry) auto
  from Cons.prems(2) entry have k: "k \<in> fst ` set result"
    and sub: "fst ` set entries \<subseteq> fst ` set result"
    by auto
  show ?case
  proof (cases v)
    case (JString s)
    with Cons.prems(1) entry obtain newValue p1 where
      step: "resolveEntries provider rx entries
               (if findAll rx s \<noteq> [] then AList.update k (JString newValue) result else result) p1
             = (Inr r, p')"
      by (auto split: prod.splits sum.splits)
    let ?result = "if findAll rx s \<noteq> [] then AList.update k (JString newValue) result else result"
    from k have keys: "map fst ?result = map fst result"
      by (simp add: update_keys)
    then have "fst ` set ?result = fst ` set result"
      by (metis list.set_map)
    with sub have "fst ` set entries \<subseteq> fst ` set ?result"
      by simp
    from Cons.IH [OF step this] keys show ?thesis
      by simp
  next
    case (JNumber n)
    with Cons.prems(1) entry have "resolveEntries provider rx entries result p = (Inr r, p')"
      by simp
    from Cons.IH [OF this sub] show ?thesis .
  next
    case (JBoolean b)
    with Cons.prems(1) entry have "resolveEntries provider rx entries result p = (Inr r, p')"
      by simp
    from Cons.IH [OF this sub] show ?thesis .
  next
    case JNull
    with Cons.prems(1) entry have "resolveEntries provider rx entries result p = (Inr r, p')"
      by simp
    from Cons.IH [OF this sub] show ?thesis .
  next
    case JUndefined
    with Cons.prems(1) entry have "resolveEntries provider rx entries result p = (Inr r, p')"
      by simp
    from Cons.IH [OF this sub] show ?thesis .
  qed
qed

lemma resolveEntries_no_references:
  "references rx entries = [] \<Longrightarrow> resolveEntries provider rx entries result p = (Inr result, p)"
proof (induction entries)
  case Nil
  then show ?case by simp
next
  case (Cons entry entries)
  obtain k v where entry: "entry = (k, v)"
    by (cases entry) auto
  from Cons.prems entry have none: "valueReferences rx k v = []" and "references rx entries = []"
    by (simp_all add: references_Cons)
  with Cons.IH have rest: "resolveEntries provider rx entries result p = (Inr result, p)"
    by simp
  show ?case
  proof (cases v)
    case (JString s)
    with none have "findAll rx s = []"
      by (simp add: valueReferences_def)
    with rest show ?thesis
      unfolding entry JString by simp
  qed (simp_all add: entry rest)
qed

lemma resolveEntries_untouched:
  "resolveEntries provider rx entries result p = (Inr r, p') \<Longrightarrow>
   (\<forall>v. (k, v) \<in> set entries \<longrightarrow> valueReferences rx k v = []) \<Longrightarrow>
   map_of r k = map_of result k"
proof (induction entries arbitrary: result p)
  case Nil
  then show ?case by simp
next
  case (Cons entry entries)
  obtain k' v' where entry: "entry = (k', v')"
    by (cases entry) auto
  from Cons.prems(2) have rest: "\<forall>v. (k, v) \<in> set entries \<longrightarrow> valueReferences rx k v = []"
    by simp
  show ?case
  proof (cases v')
    case (JString s)
    with Cons.prems(1) entry obtain newValue p1 where
      step: "resolveEntries provider rx entries
               (if findAll rx s \<noteq> [] then AList.update k' (JString newValue) result else result) p1
             = (Inr r, p')"
      by (auto split: prod.splits sum.splits)
    have "findAll rx s \<noteq> [] \<Longrightarrow> k' \<noteq> k"
      using Cons.prems(2) entry JString by (auto simp: valueReferences_def)
    then have "map_of (if findAll rx s \<noteq> [] then AList.update k' (JString newValue) result
                       else result) k = map_of result k"
      by (cases "findAll rx s = []") (auto simp: update_conv')
    with Cons.IH [OF step rest] show ?thesis
      by simp
  next
    case (JNumber n)
    with Cons.prems(1) entry have "resolveEntries provider rx entries result p = (Inr r, p')"
      by simp
    from Cons.IH [OF this rest] show ?thesis .
  next
    case (JBoolean b)
    with Cons.prems(1) entry have "resolveEntries provider rx entries result p = (Inr r, p')"
      by simp
    from Cons.IH [OF this rest] show ?thesis .
  next
    case JNull
    with Cons.prems(1) entry have "resolveEntries provider rx entries result p = (Inr r, p')"
      by simp
    from Cons.IH [OF this rest] show ?thesis .
  next
    case JUndefined
    with Cons.prems(1) entry have "resolveEntries provider rx entries result p = (Inr r, p')"
      by simp
    from Cons.IH [OF this rest] show ?thesis .
  qed
qed

section \<open>Service and account of a reference\<close>

lemma jsSplit_not_Nil [simp]: "jsSplit sep s \<noteq> []"
  by (induction s) auto

lemma jsSplit_hd: "hd (jsSplit sep s) = takeWhile (\<lambda>c. c \<noteq> sep) s"
  by (induction s) auto

lemma jsSplit_tl:
  "sep \<in> set s \<Longrightarrow> tl (jsSplit sep s) = jsSplit sep (tl (dropWhile (\<lambda>c. c \<noteq> sep) s))"
  by (induction s) auto

text \<open>
  Claim C5, as the code has it. Both engines take service and account from
  \<open>path.split("/")\<close>. For a capture that contains a \<open>/\<close>, the service is the text before
  the first \<open>/\<close> and the account is the text between the first \<open>/\<close> and the second one
  (all of the remainder when there is no second \<open>/\<close>); whatever follows a second \<open>/\<close> is
  dropped.
\<close>

theorem splitPath_first_two_segments:
  assumes "CHR ''/'' \<in> set path"
  shows "splitPath path =
           (JString (takeWhile (\<lambda>c. c \<noteq> CHR ''/'') path),
            JString (takeWhile (\<lambda>c. c \<noteq> CHR ''/'')
                       (tl (dropWhile (\<lambda>c. c \<noteq> CHR ''/'') path))))"
proof -
  let ?parts = "jsSplit (CHR ''/'') path"
  let ?rest = "tl (dropWhile (\<lambda>c. c \<noteq> CHR ''/'') path)"
  have tl: "tl ?parts = jsSplit (CHR ''/'') ?rest"
    using assms by (rule jsSplit_tl)
  then have "tl ?parts \<noteq> []"
    by simp
  then obtain a b bs where parts: "?parts = a # b # bs"
    by (cases ?parts; cases "tl ?parts") auto
  from parts have "a = hd ?parts"
    by simp
  then have a: "a = takeWhile (\<lambda>c. c \<noteq> CHR ''/'') path"
    by (simp add: jsSplit_hd)
  from parts have "b = hd (tl ?parts)"
    by simp
  then have b: "b = takeWhile (\<lambda>c. c \<noteq> CHR ''/'') ?rest"
    by (simp add: tl jsSplit_hd)
  from parts a b show ?thesis
    by (simp add: splitPath_def element_def Let_def)
qed

theorem splitPath_first_two_segments_witness:
  "splitPath ''a/b/c'' = (JString ''a'', JString ''b'')"
proof -
  have "CHR ''/'' \<in> set ''a/b/c''"
    by simp
  from splitPath_first_two_segments [OF this] show ?thesis
    by simp
qed

text \<open>
  The capture \<open>a/b/c\<close> gives the account \<open>b\<close>, not \<open>b/c\<close>; verification reports it so.
\<close>

theorem account_is_not_the_remainder:
  "snd (splitPath ''a/b/c'') \<noteq> JString ''b/c'' \<and>
   fst (verifyEnvironment defaultOptions
          (mockProvider (\<lambda>svc acct. Inr ''test-secret'') (\<lambda>svc acct. False))
          [(''KEY'', JString ''$(taemno os://a/b/c)'')] 0) =
     Inr \<lparr>success = False,
          missingSecrets = [\<lparr>key = ''KEY'', service = JString ''a'', account = JString ''b''\<rparr>]\<rparr>"
  by code_simp

section \<open>The macOS provider never gets past validation\<close>

text \<open>
  In \<open>inputClass\<close> the characters \<open>_-@\<close> form a range from U+005F down to U+0040, so the
  pattern does not compile: \<open>isValidInput\<close> throws a SyntaxError on every string, before
  any character of the input is looked at.
\<close>

lemma compileClass_inputClass:
  "compileClass inputClass =
     Inl (Thrown SyntaxError
            ''Invalid regular expression: Range out of order in character class'' None)"
  by code_simp

lemma testClass_inputClass:
  "testClass inputClass s =
     Inl (Thrown SyntaxError
            ''Invalid regular expression: Range out of order in character class'' None)"
  by (simp add: testClass_def compileClass_inputClass)

lemma validateInputs_rejects: "\<exists>e. validateInputs svc acct keychain = Inl e"
  by (cases svc) (simp_all add: validateInputs_def testClass_inputClass)




text \<open>
  Claim C7 at failing inputs. A service that is \<open>undefined\<close> (not a string) makes \<open>get\<close>,
  \<open>set\<close> and \<open>delete\<close> throw a TypeError, and a service with a character outside the
  allowed set makes \<open>get\<close> throw a SyntaxError; neither is an \<open>InvalidInputError\<close>. The
  security tool is not run: the system state is unchanged.
\<close>

theorem validation_throws_other_errors:
  "darwin_get be JUndefined (JString ''acct'') JNull st =
     (Inl (Thrown TypeError ''Cannot read properties of undefined'' None), st) \<and>
   darwin_set be JUndefined (JString ''acct'') ''pw'' JNull st =
     (Inl (Thrown TypeError ''Cannot read properties of undefined'' None), st) \<and>
   darwin_deleteSecret be JUndefined (JString ''acct'') JNull st =
     (Inl (Thrown TypeError ''Cannot read properties of undefined'' None), st) \<and>
   darwin_get be (JString ''a;b'') (JString ''acct'') JNull st =
     (Inl (Thrown SyntaxError
             ''Invalid regular expression: Range out of order in character class'' None), st)"
  by (simp add: darwin_get_def darwin_set_def darwin_deleteSecret_def validateInputs_def
      testClass_inputClass)

text \<open>
  Claim C8 at a failing input. \<open>set("svc", "acct", "pw")\<close> throws in validation and
  stores nothing, and \<open>get("svc", "acct")\<close> throws as well instead of returning \<open>"pw"\<close>;
  indeed \<open>set\<close> and \<open>get\<close> throw on every input, whatever the security tool does.
\<close>

theorem set_then_get_fails:
  "darwin_set be (JString ''svc'') (JString ''acct'') ''pw'' JNull st =
     (Inl (Thrown SyntaxError
             ''Invalid regular expression: Range out of order in character class'' None), st) \<and>
   darwin_get be (JString ''svc'') (JString ''acct'') JNull st =
     (Inl (Thrown SyntaxError
             ''Invalid regular expression: Range out of order in character class'' None), st) \<and>
   (\<exists>e. darwin_set be svc acct secret keychain st = (Inl e, st)) \<and>
   (\<exists>e. darwin_get be svc acct keychain st = (Inl e, st))"
proof -
  obtain e where rejected: "validateInputs svc acct keychain = Inl e"
    using validateInputs_rejects by blast
  have "darwin_set be svc acct secret keychain st = (Inl e, st)"
    and "darwin_get be svc acct keychain st = (Inl e, st)"
    by (simp_all add: darwin_set_def darwin_get_def rejected)
  moreover have "darwin_set be (JString ''svc'') (JString ''acct'') ''pw'' JNull st =
     (Inl (Thrown SyntaxError
             ''Invalid regular expression: Range out of order in character class'' None), st)"
    and "darwin_get be (JString ''svc'') (JString ''acct'') JNull st =
     (Inl (Thrown SyntaxError
             ''Invalid regular expression: Range out of order in character class'' None), st)"
    by (simp_all add: darwin_set_def darwin_get_def validateInputs_def testClass_inputClass)
  ultimately show ?thesis
    by blast
qed

section \<open>What resolution puts in place of a reference\<close>

text \<open>
  A secret without \<open>$\<close> replaces the first occurrence of the matched text as it is.
\<close>

lemma getSubstitution_plain:
  "CHR ''$'' \<notin> set replacement \<Longrightarrow>
   getSubstitution matched preceding following replacement = replacement"
  by (induction matched preceding following replacement rule: getSubstitution.induct) auto

lemma splitFirst_decomposes:
  "splitFirst search str = Some (preceding, following) \<Longrightarrow> str = preceding @ search @ following"
proof (induction str arbitrary: preceding)
  case Nil
  then show ?case by (simp split: if_splits)
next
  case (Cons c cs)
  show ?case
  proof (cases "take (length search) (c # cs) = search")
    case True
    with Cons.prems have "preceding = []" "following = drop (length search) (c # cs)"
      by simp_all
    with True show ?thesis
      by (metis append_Nil append_take_drop_id)
  next
    case False
    with Cons.prems obtain pre where "splitFirst search cs = Some (pre, following)"
      and "preceding = c # pre"
      by (auto split: option.splits)
    with Cons.IH show ?thesis by simp
  qed
qed

lemma jsReplace_plain:
  "CHR ''$'' \<notin> set secret \<Longrightarrow> splitFirst fullMatch newValue = Some (preceding, following) \<Longrightarrow>
   jsReplace newValue fullMatch secret = preceding @ secret @ following"
  by (simp add: jsReplace_def getSubstitution_plain)

text \<open>
  A match is the matched text followed by the text left, and the pattern matches again
  wherever that text stands.
\<close>

lemma matchAtoms_decomposes:
  "matchAtoms as s = Some r \<Longrightarrow>
   \<exists>u. s = u @ r \<and> (\<forall>t. matchAtoms as (u @ t) = Some t)"
proof (induction as s rule: matchAtoms.induct)
  case (1 s)
  then show ?case by simp
next
  case (2 a as)
  then show ?case by simp
next
  case (3 a as c cs)
  then have "atomMatches a c" and "matchAtoms as cs = Some r"
    by (simp_all split: if_splits)
  with "3.IH" obtain u where "cs = u @ r" and "\<forall>t. matchAtoms as (u @ t) = Some t"
    by blast
  with \<open>atomMatches a c\<close> have "c # cs = (c # u) @ r \<and> (\<forall>t. matchAtoms (a # as) ((c # u) @ t) = Some t)"
    by simp
  then show ?case by blast
qed

lemma lazyCapture_decomposes:
  "lazyCapture suf s = Some (cap, r) \<Longrightarrow>
   \<exists>u. s = cap @ u @ r \<and> cap \<noteq> [] \<and> (\<forall>t. \<exists>m. lazyCapture suf (cap @ u @ t) = Some m)"
proof (induction s arbitrary: cap)
  case Nil
  then show ?case by simp
next
  case (Cons c cs)
  from Cons.prems have c: "\<not> isLineTerminator c"
    by (simp split: if_splits)
  show ?case
  proof (cases "matchAtoms suf cs")
    case (Some r')
    with Cons.prems c have cap: "cap = [c]" and "r' = r"
      by simp_all
    with Some obtain u where "cs = u @ r" and "\<forall>t. matchAtoms suf (u @ t) = Some t"
      by (blast dest: matchAtoms_decomposes)
    with c cap have "c # cs = cap @ u @ r \<and> cap \<noteq> [] \<and>
        (\<forall>t. \<exists>m. lazyCapture suf (cap @ u @ t) = Some m)"
      by simp
    then show ?thesis by blast
  next
    case None
    with Cons.prems c obtain cap' where cap': "lazyCapture suf cs = Some (cap', r)"
      and cap: "cap = c # cap'"
      by (auto split: option.splits)
    from Cons.IH [OF cap'] obtain u where u: "cs = cap' @ u @ r"
      and again: "\<forall>t. \<exists>m. lazyCapture suf (cap' @ u @ t) = Some m"
      by blast
    have "\<exists>m. lazyCapture suf (cap @ u @ t) = Some m" for t
    proof -
      from again obtain m where "lazyCapture suf (cap' @ u @ t) = Some m"
        by blast
      with c cap show ?thesis
        by (cases "matchAtoms suf (cap' @ u @ t)"; cases m) auto
    qed
    with u cap show ?thesis
      by auto
  qed
qed

lemma matchHere_decomposes:
  assumes "matchHere rx s = Some (fullMatch, path, r)"
  shows "s = fullMatch @ r \<and> (\<forall>t. \<exists>m. matchHere rx (fullMatch @ t) = Some m)"
proof -
  from assms obtain afterPrefix where
    a: "matchAtoms (fst rx) s = Some afterPrefix" and
    b: "lazyCapture (snd rx) afterPrefix = Some (path, r)" and
    f: "fullMatch = take (length s - length r) s"
    by (auto simp: matchHere_def split: option.splits)
  from a obtain u where u: "s = u @ afterPrefix" "\<forall>t. matchAtoms (fst rx) (u @ t) = Some t"
    by (blast dest: matchAtoms_decomposes)
  from b obtain w where w: "afterPrefix = path @ w @ r"
    "\<forall>t. \<exists>m. lazyCapture (snd rx) (path @ w @ t) = Some m"
    by (blast dest: lazyCapture_decomposes)
  from u w f have full: "fullMatch = u @ path @ w"
    by simp
  have "\<exists>m. matchHere rx (fullMatch @ t) = Some m" for t
  proof -
    from w obtain m where "lazyCapture (snd rx) (path @ w @ t) = Some m"
      by blast
    with u full show ?thesis
      by (cases m) (simp add: matchHere_def)
  qed
  with u w full show ?thesis
    by simp
qed

lemma exec_matchHere:
  "exec rx s = Some (fullMatch, path, r) \<Longrightarrow>
   matchHere rx (fullMatch @ r) = Some (fullMatch, path, r)"
proof (induction s)
  case Nil
  then show ?case by simp
next
  case (Cons c cs)
  show ?case
  proof (cases "matchHere rx (c # cs)")
    case None
    with Cons show ?thesis by simp
  next
    case (Some m)
    with Cons.prems have m: "matchHere rx (c # cs) = Some (fullMatch, path, r)"
      by simp
    then have "c # cs = fullMatch @ r"
      by (simp add: matchHere_decomposes)
    with m show ?thesis by simp
  qed
qed

text \<open>
  The leftmost match stands at the first occurrence of its own text: what
  \<open>newValue.replace(fullMatch, secret)\<close> replaces for the first match of a value is that
  match.
\<close>

lemma exec_first_occurrence:
  "exec rx s = Some (fullMatch, path, r) \<Longrightarrow>
   \<exists>skipped. s = skipped @ fullMatch @ r \<and> splitFirst fullMatch s = Some (skipped, r)"
proof (induction s)
  case Nil
  then show ?case by simp
next
  case (Cons c cs)
  show ?case
  proof (cases "matchHere rx (c # cs)")
    case (Some m)
    with Cons.prems have "matchHere rx (c # cs) = Some (fullMatch, path, r)"
      by simp
    then have here: "c # cs = fullMatch @ r"
      by (simp add: matchHere_decomposes)
    then have "take (length fullMatch) (c # cs) = fullMatch"
      and "drop (length fullMatch) (c # cs) = r"
      by simp_all
    then have "splitFirst fullMatch (c # cs) = Some ([], r)"
      by (simp del: take_Suc_Cons drop_Suc_Cons)
    with here have "c # cs = [] @ fullMatch @ r \<and> splitFirst fullMatch (c # cs) = Some ([], r)"
      by simp
    then show ?thesis by blast
  next
    case None
    with Cons.prems have later: "exec rx cs = Some (fullMatch, path, r)"
      by simp
    with Cons.IH obtain skipped where
      sk: "cs = skipped @ fullMatch @ r" "splitFirst fullMatch cs = Some (skipped, r)"
      by blast
    have "take (length fullMatch) (c # cs) \<noteq> fullMatch"
    proof
      assume "take (length fullMatch) (c # cs) = fullMatch"
      then have "c # cs = fullMatch @ drop (length fullMatch) (c # cs)"
        by (metis append_take_drop_id)
      moreover from later have "\<exists>m. matchHere rx (fullMatch @ drop (length fullMatch) (c # cs)) = Some m"
        using exec_matchHere matchHere_decomposes by blast
      ultimately show False
        using None by simp
    qed
    with sk have "c # cs = (c # skipped) @ fullMatch @ r \<and>
        splitFirst fullMatch (c # cs) = Some (c # skipped, r)"
      by simp
    then show ?thesis by blast
  qed
qed

lemma resolve_single_reference:
  assumes "exec rx v = Some (fullMatch, path, r)"
    and "findAll rx r = []"
    and "splitPath path = (svc, acct)"
    and "provider_get provider svc acct p = (Inr secret, p')"
    and "CHR ''$'' \<notin> set secret"
  shows "\<exists>skipped. v = skipped @ fullMatch @ r \<and>
           resolveMatches provider k (findAll rx v) v p = (Inr (skipped @ secret @ r), p')"
proof -
  from assms(1) obtain skipped where
    sk: "v = skipped @ fullMatch @ r" "splitFirst fullMatch v = Some (skipped, r)"
    by (blast dest: exec_first_occurrence)
  from assms(1,2) have "findAll rx v = [(fullMatch, path)]"
    by (subst findAll.simps) simp
  with assms(3,4) have "resolveMatches provider k (findAll rx v) v p =
      (Inr (jsReplace v fullMatch secret), p')"
    by (simp add: retrieveSecret_def)
  with sk assms(5) show ?thesis
    by (auto simp: jsReplace_plain)
qed

text \<open>
  Claim C1 at failing inputs. \<open>newValue.replace(fullMatch, secret)\<close> reads the secret as a
  replacement pattern: the secret \<open>pa$$word\<close> is inserted as \<open>pa$word\<close>, and in the secret
  \<open>[$&]\<close> the \<open>$&\<close> is replaced by the text of the reference itself.
\<close>

theorem secret_with_dollars_is_not_verbatim:
  "resolveEnvironment defaultOptions
     (mockProvider (\<lambda>svc acct. Inr ''pa$$word'') (\<lambda>svc acct. True))
     [(''KEY'', JString ''pre-$(taemno os://svc/acct)-post'')] 0 =
     (Inr [(''KEY'', JString ''pre-pa$word-post'')], 1) \<and>
   resolveEnvironment defaultOptions
     (mockProvider (\<lambda>svc acct. Inr ''[$&]'') (\<lambda>svc acct. True))
     [(''KEY'', JString ''pre-$(taemno os://svc/acct)-post'')] 0 =
     (Inr [(''KEY'', JString ''pre-[$(taemno os://svc/acct)]-post'')], 1)"
  by code_simp

section \<open>Pattern characters in the prefix\<close>

text \<open>
  When the only pattern characters of the prefix are \<open>$\<close> and \<open>(\<close> and the only one of
  the suffix is \<open>)\<close>, as in the default options, the pattern is in the fragment and a match
  is the prefix, a capture that is not empty, and the suffix, as they are written.
\<close>

lemma parseAtoms_literal:
  "\<not> isSyntaxCharacter c \<Longrightarrow> parseAtoms (c # r) = map_option ((#) (Lit c)) (parseAtoms r)"
  by (cases r) (auto simp: isSyntaxCharacter_def)

lemma parseAtoms_escaped:
  "\<not> isAlphaNumeric d \<Longrightarrow>
   parseAtoms (CHR 0x5C # d # r) = map_option ((#) (Lit d)) (parseAtoms r)"
  by simp

lemma parseAtoms_escapePrefix:
  "\<forall>c \<in> set prefix. c = CHR ''$'' \<or> c = CHR ''('' \<or> \<not> isSyntaxCharacter c \<Longrightarrow>
   parseAtoms (escapePrefix prefix) = Some (map Lit prefix)"
proof (induction prefix)
  case Nil
  then show ?case by (simp add: escapePrefix_def)
next
  case (Cons c cs)
  then have IH: "parseAtoms (escapeChar (CHR ''('') (escapeChar (CHR ''$'') cs)) = Some (map Lit cs)"
    by (simp add: escapePrefix_def)
  consider "c = CHR ''$''" | "c = CHR ''(''" | "c \<noteq> CHR ''$''" "c \<noteq> CHR ''(''" "\<not> isSyntaxCharacter c"
    using Cons.prems by auto
  then show ?case
  proof cases
    case 1
    then show ?thesis
      by (simp add: escapePrefix_def IH isAlphaNumeric_def)
  next
    case 2
    then show ?thesis
      by (simp add: escapePrefix_def IH isAlphaNumeric_def)
  next
    case 3
    then show ?thesis
      by (simp add: escapePrefix_def IH parseAtoms_literal)
  qed
qed

lemma parseAtoms_escapeSuffix:
  "\<forall>c \<in> set suffix. c = CHR '')'' \<or> \<not> isSyntaxCharacter c \<Longrightarrow>
   parseAtoms (escapeSuffix suffix) = Some (map Lit suffix)"
proof (induction suffix)
  case Nil
  then show ?case by (simp add: escapeSuffix_def)
next
  case (Cons c cs)
  then have IH: "parseAtoms (escapeChar (CHR '')'') cs) = Some (map Lit cs)"
    by (simp add: escapeSuffix_def)
  show ?case
  proof (cases "c = CHR '')''")
    case True
    then show ?thesis
      by (simp add: escapeSuffix_def IH isAlphaNumeric_def)
  next
    case False
    with Cons.prems have "\<not> isSyntaxCharacter c"
      by simp
    with False show ?thesis
      by (simp add: escapeSuffix_def IH parseAtoms_literal)
  qed
qed

lemma compile_literal:
  assumes "\<forall>c \<in> set prefix. c = CHR ''$'' \<or> c = CHR ''('' \<or> \<not> isSyntaxCharacter c"
    and "\<forall>c \<in> set suffix. c = CHR '')'' \<or> \<not> isSyntaxCharacter c"
  shows "compile prefix suffix = Inr (map Lit prefix, map Lit suffix)"
  using assms by (simp add: compile_def parseAtoms_escapePrefix parseAtoms_escapeSuffix)

lemma matchAtoms_literal:
  "matchAtoms (map Lit p) str = Some rest \<Longrightarrow> str = p @ rest"
proof (induction p arbitrary: str)
  case Nil
  then show ?case by simp
next
  case (Cons c p)
  then show ?case
    by (cases str) (auto split: if_splits)
qed

lemma lazyCapture_literal:
  "lazyCapture (map Lit s) str = Some (cap, rest) \<Longrightarrow>
   str = cap @ s @ rest \<and> cap \<noteq> [] \<and> \<not> list_ex isLineTerminator cap"
proof (induction str arbitrary: cap)
  case Nil
  then show ?case by simp
next
  case (Cons c cs)
  from Cons.prems have c: "\<not> isLineTerminator c"
    by (simp split: if_splits)
  show ?case
  proof (cases "matchAtoms (map Lit s) cs")
    case (Some r)
    with Cons.prems c have "cap = [c]" "rest = r"
      by simp_all
    with Some c show ?thesis
      by (auto dest: matchAtoms_literal)
  next
    case None
    with Cons.prems c obtain cap' where "lazyCapture (map Lit s) cs = Some (cap', rest)"
      and "cap = c # cap'"
      by (auto split: option.splits)
    with Cons.IH c show ?thesis
      by auto
  qed
qed

lemma matchHere_literal:
  assumes "matchHere (map Lit p, map Lit s) str = Some (fullMatch, path, rest)"
  shows "fullMatch = p @ path @ s \<and> str = fullMatch @ rest \<and> path \<noteq> []"
proof -
  from assms obtain afterPrefix where
    a: "matchAtoms (map Lit p) str = Some afterPrefix" and
    b: "lazyCapture (map Lit s) afterPrefix = Some (path, rest)" and
    f: "fullMatch = take (length str - length rest) str"
    by (auto simp: matchHere_def split: option.splits)
  from a have "str = p @ afterPrefix"
    by (rule matchAtoms_literal)
  moreover from b have "afterPrefix = path @ s @ rest" and "path \<noteq> []"
    by (auto dest: lazyCapture_literal)
  ultimately have "str = (p @ path @ s) @ rest"
    by simp
  with f \<open>path \<noteq> []\<close> show ?thesis
    by simp
qed

text \<open>
  Claim C4 at a failing input. The \<open>.\<close> of the prefix \<open>@os.secret:\<close> is not escaped and
  matches any character: a value that holds \<open>@os-secret:svc/acct@\<close>, in which the prefix
  does not occur, is reported as a reference to \<open>svc/acct\<close>.
\<close>

theorem dot_in_prefix_is_a_wildcard:
  "patternSource ''@os.secret:'' ''@'' = ''@os.secret:(.+?)@'' \<and>
   verifyEnvironment \<lparr>envPrefix = ''@os.secret:'', envSuffix = ''@''\<rparr>
     (mockProvider (\<lambda>svc acct. Inr ''test-secret'') (\<lambda>svc acct. False))
     [(''KEY'', JString ''see @os-secret:svc/acct@'')] 0 =
     (Inr \<lparr>success = False,
           missingSecrets =
             [\<lparr>key = ''KEY'', service = JString ''svc'', account = JString ''acct''\<rparr>]\<rparr>, 1)"
  by code_simp

section \<open>The order of enumeration\<close>

lemma objectEntries_set [simp]: "set (objectEntries env) = set env"
  by (auto simp: objectEntries_def)

lemma objectEntries_idem [simp]: "objectEntries (objectEntries env) = objectEntries env"
proof -
  let ?f = "\<lambda>(k, v). numericValue k"
  let ?A = "sort_key ?f (filter (\<lambda>(k, v). isArrayIndex k) env)"
  let ?B = "filter (\<lambda>(k, v). \<not> isArrayIndex k) env"
  have A: "filter (\<lambda>(k, v). isArrayIndex k) (?A @ ?B) = ?A"
    by (auto simp: filter_id_conv filter_empty_conv)
  have B: "filter (\<lambda>(k, v). \<not> isArrayIndex k) (?A @ ?B) = ?B"
    by (auto simp: filter_id_conv filter_empty_conv)
  have "sort_key ?f ?A = ?A"
    by (rule sort_key_id_if_sorted) simp
  with A B show ?thesis
    by (simp only: objectEntries_def)
qed

lemma objectEntries_plain:
  "list_all (\<lambda>(k, v). \<not> isArrayIndex k) env \<Longrightarrow> objectEntries env = env"
  by (simp add: objectEntries_def list_all_iff filter_id_conv filter_empty_conv case_prod_beta)

lemma resolveSecrets_run:
  "compile prefix suffix = Inr rx \<Longrightarrow>
   resolveSecrets env prefix suffix provider p =
     resolveEntries provider rx (objectEntries env) (objectEntries env) p"
  by (simp add: resolveSecrets_def spread_def)

section \<open>What a failing get makes of the resolution\<close>

text \<open>
  Claim C2, as the code has it. For a prefix and suffix whose pattern is in the modelled
  fragment: if, going through the references of the environment in the order of
  enumeration, a call of \<open>provider.get\<close> throws (the first such call being for a reference
  of key \<open>k\<close>, with the thrown value \<open>cause\<close>), then \<open>resolveSecrets\<close> throws as a whole
  and returns no mapping, partially substituted or not, and \<open>k\<close> is a key of the
  environment. When the cause is an error object, what is thrown is a plain \<open>Error\<close> whose
  message is \<open>Failed to resolve secret for\<close>, the key, a colon and the message text of the
  cause; the cause itself is not attached to it.
\<close>

theorem resolveSecrets_fails_as_a_whole:
  assumes "compile prefix suffix = Inr rx"
    and "getAnswers provider (references rx (objectEntries env)) p = (Inl (k, cause), p')"
  shows "(\<exists>e. resolveSecrets env prefix suffix provider p = (Inl e, p')) \<and>
         k \<in> fst ` set env \<and>
         (\<forall>n m c. cause = Thrown n m c \<longrightarrow>
            resolveSecrets env prefix suffix provider p =
              (Inl (Thrown Error (''Failed to resolve secret for '' @ k @ '': '' @ m) None), p'))"
proof -
  let ?entries = "objectEntries env"
  from resolveEntries_answers [of provider rx ?entries ?entries p] assms(2)
  have "thrown (fst (resolveEntries provider rx ?entries ?entries p)) = Some (resolutionError k cause)"
    and "snd (resolveEntries provider rx ?entries ?entries p) = p'"
    by (simp_all add: failure_def)
  then have "resolveEntries provider rx ?entries ?entries p = (Inl (resolutionError k cause), p')"
    by (cases "resolveEntries provider rx ?entries ?entries p")
       (auto simp: thrown_def split: sum.splits)
  with assms(1) have run: "resolveSecrets env prefix suffix provider p =
      (Inl (resolutionError k cause), p')"
    by (simp add: resolveSecrets_run)
  moreover from getAnswers_failure_key [OF assms(2)] have "k \<in> fst ` set env"
    using references_keys [of k _ rx "objectEntries env"] by auto
  ultimately show ?thesis
    by (auto simp: resolutionError_def)
qed

theorem resolveSecrets_fails_as_a_whole_witness:
  "resolveSecrets
     [(''A'', JString ''$(taemno os://service/account)''),
      (''B'', JString ''x $(taemno os://missing/account)'')]
     ''$(taemno os://'' '')''
     (mockProvider
        (\<lambda>svc acct. if svc = JString ''service'' then Inr ''test-secret''
                     else Inl (Thrown KeychainError ''Secret not found: missing/account''
                                 (Some (Thrown Error ''Command failed'' None))))
        (\<lambda>svc acct. True)) 0 =
   (Inl (Thrown Error
           ''Failed to resolve secret for B: Secret not found: missing/account'' None), 2)"
proof -
  let ?rx = "(map Lit ''$(taemno os://'', [Lit CHR '')''])"
  let ?env = "[(''A'', JString ''$(taemno os://service/account)''),
      (''B'', JString ''x $(taemno os://missing/account)'')]"
  let ?cause = "Thrown KeychainError ''Secret not found: missing/account''
                  (Some (Thrown Error ''Command failed'' None))"
  let ?provider = "mockProvider
        (\<lambda>svc acct. if svc = JString ''service'' then Inr ''test-secret'' else Inl ?cause)
        (\<lambda>svc acct. True)"
  have c: "compile ''$(taemno os://'' '')'' = Inr ?rx"
    by code_simp
  have r: "references ?rx (objectEntries ?env) =
      [(''A'', JString ''service'', JString ''account''),
       (''B'', JString ''missing'', JString ''account'')]"
    by code_simp
  have g: "getAnswers ?provider (references ?rx (objectEntries ?env)) 0 = (Inl (''B'', ?cause), 2)"
    unfolding r by (simp add: mockProvider_def)
  show ?thesis
    using resolveSecrets_fails_as_a_whole [OF c g] by simp
qed

text \<open>
  The error thrown does not carry the cause: a \<open>KeychainError\<close> that holds the failure of
  the security tool and a bare \<open>TypeError\<close> with the same message text give the same
  error, a plain \<open>Error\<close> with a message and nothing else. And when \<open>provider.get\<close> rejects
  with \<open>undefined\<close>, reading \<open>error.message\<close> in the \<open>catch\<close> block throws a TypeError that
  names no key.
\<close>

theorem resolution_error_does_not_carry_the_cause:
  "resolveSecrets [(''TEST_KEY'', JString ''$(taemno os://service/account)'')]
     ''$(taemno os://'' '')''
     (mockProvider
        (\<lambda>svc acct. Inl (Thrown KeychainError ''Secret not found: service/account''
                             (Some (Thrown Error ''Command failed'' None))))
        (\<lambda>svc acct. True)) 0 =
   resolveSecrets [(''TEST_KEY'', JString ''$(taemno os://service/account)'')]
     ''$(taemno os://'' '')''
     (mockProvider
        (\<lambda>svc acct. Inl (Thrown TypeError ''Secret not found: service/account'' None))
        (\<lambda>svc acct. True)) 0 \<and>
   resolveSecrets [(''TEST_KEY'', JString ''$(taemno os://service/account)'')]
     ''$(taemno os://'' '')''
     (mockProvider
        (\<lambda>svc acct. Inl (Thrown KeychainError ''Secret not found: service/account''
                             (Some (Thrown Error ''Command failed'' None))))
        (\<lambda>svc acct. True)) 0 =
   (Inl (Thrown Error
           ''Failed to resolve secret for TEST_KEY: Secret not found: service/account'' None), 1) \<and>
   resolveSecrets [(''TEST_KEY'', JString ''$(taemno os://service/account)'')]
     ''$(taemno os://'' '')''
     (mockProvider (\<lambda>svc acct. Inl (ThrownValue JUndefined)) (\<lambda>svc acct. True)) 0 =
   (Inl (Thrown TypeError ''Cannot read properties of undefined'' None), 1)"
  by code_simp

section \<open>The matcher of the code and the references of the specification\<close>

text \<open>
  For a prefix and a suffix whose pattern characters are all escaped by the code, on a
  text without line terminators, the matches of the pattern are the occurrences that the
  specification describes.
\<close>

lemma matchAtoms_Lit:
  "matchAtoms (map Lit p) s = (if take (length p) s = p then Some (drop (length p) s) else None)"
proof (induction p arbitrary: s)
  case Nil
  then show ?case by simp
next
  case (Cons c p)
  then show ?case
    by (cases s) auto
qed

lemma lazyCapture_shortestCapture:
  "singleLine s \<Longrightarrow> lazyCapture (map Lit suffix) s = shortestCapture suffix s"
proof (induction s)
  case Nil
  then show ?case by simp
next
  case (Cons c cs)
  then have "\<not> isLineTerminator c" and "lazyCapture (map Lit suffix) cs = shortestCapture suffix cs"
    by (simp_all add: singleLine_def)
  then show ?case
    by (simp add: matchAtoms_Lit)
qed

lemma shortestCapture_decomposes:
  "shortestCapture suffix s = Some (cap, r) \<Longrightarrow> s = cap @ suffix @ r"
proof (induction s arbitrary: cap)
  case Nil
  then show ?case by simp
next
  case (Cons c cs)
  show ?case
  proof (cases "take (length suffix) cs = suffix")
    case True
    with Cons.prems have "cap = [c]" "r = drop (length suffix) cs"
      by simp_all
    with True show ?thesis
      by (metis append_Cons append_Nil append_take_drop_id)
  next
    case False
    with Cons.prems obtain cap' where "shortestCapture suffix cs = Some (cap', r)"
      and "cap = c # cap'"
      by (auto split: option.splits)
    with Cons.IH show ?thesis by simp
  qed
qed

lemma singleLine_drop: "singleLine s \<Longrightarrow> singleLine (drop n s)"
  by (auto simp: singleLine_def list_all_iff dest: in_set_dropD)

lemma singleLine_append [simp]: "singleLine (xs @ ys) = (singleLine xs \<and> singleLine ys)"
  by (simp add: singleLine_def)

lemma matchHere_occurrenceHere:
  assumes "singleLine s"
  shows "matchHere (map Lit prefix, map Lit suffix) s = occurrenceHere prefix suffix s"
proof (cases "take (length prefix) s = prefix")
  case False
  then show ?thesis
    by (simp add: matchHere_def occurrenceHere_def matchAtoms_Lit)
next
  case True
  let ?t = "drop (length prefix) s"
  from assms have cap: "lazyCapture (map Lit suffix) ?t = shortestCapture suffix ?t"
    by (simp add: lazyCapture_shortestCapture singleLine_drop)
  show ?thesis
  proof (cases "shortestCapture suffix ?t")
    case None
    with True cap show ?thesis
      by (simp add: matchHere_def occurrenceHere_def matchAtoms_Lit)
  next
    case (Some m)
    obtain c r where m: "m = (c, r)"
      by (cases m) auto
    from Some m have "?t = c @ suffix @ r"
      by (simp add: shortestCapture_decomposes)
    with True have "s = (prefix @ c @ suffix) @ r"
      by (metis append_assoc append_take_drop_id)
    then have "take (length s - length r) s = prefix @ c @ suffix"
      by simp
    with True cap Some m show ?thesis
      by (simp add: matchHere_def occurrenceHere_def matchAtoms_Lit)
  qed
qed

lemma exec_nextOccurrence:
  "singleLine s \<Longrightarrow> exec (map Lit prefix, map Lit suffix) s = nextOccurrence prefix suffix s"
proof (induction s)
  case Nil
  then show ?case by simp
next
  case (Cons c cs)
  then have "exec (map Lit prefix, map Lit suffix) cs = nextOccurrence prefix suffix cs"
    by (simp add: singleLine_def)
  with Cons.prems show ?case
    by (simp add: matchHere_occurrenceHere split: option.splits)
qed

lemma findAll_occurrences:
  "singleLine s \<Longrightarrow> findAll (map Lit prefix, map Lit suffix) s = occurrences prefix suffix s"
proof (induction s rule: length_induct)
  case (1 s)
  let ?rx = "(map Lit prefix, map Lit suffix)"
  show ?case
  proof (cases "exec ?rx s")
    case None
    with "1.prems" show ?thesis
      by (subst findAll.simps, subst occurrences.simps) (simp add: exec_nextOccurrence [symmetric])
  next
    case (Some m)
    obtain full cap r where m: "m = (full, cap, r)"
      by (cases m) auto
    from Some m obtain skipped where "s = skipped @ full @ r"
      by (blast dest: exec_first_occurrence)
    with "1.prems" have "singleLine r"
      by (metis singleLine_append)
    moreover from Some m have "length r < length s"
      by (simp add: exec_length)
    ultimately have "findAll ?rx r = occurrences prefix suffix r"
      using "1.IH" by blast
    with Some m "1.prems" show ?thesis
      by (subst findAll.simps, subst occurrences.simps) (simp add: exec_nextOccurrence [symmetric])
  qed
qed

lemma literal_compile:
  "literalPrefix prefix \<Longrightarrow> literalSuffix suffix \<Longrightarrow>
   compile prefix suffix = Inr (map Lit prefix, map Lit suffix)"
  by (rule compile_literal) (simp_all add: literalPrefix_def literalSuffix_def list_all_iff)

lemma references_specReferences:
  "list_all (\<lambda>(k, v). singleLineValue v) entries \<Longrightarrow>
   references (map Lit prefix, map Lit suffix) entries = specReferences prefix suffix entries"
proof (induction entries)
  case Nil
  then show ?case by (simp add: specReferences_def)
next
  case (Cons entry entries)
  obtain k v where entry: "entry = (k, v)"
    by (cases entry) auto
  from Cons.prems entry have v: "singleLineValue v"
    and rest: "list_all (\<lambda>(k, v). singleLineValue v) entries"
    by simp_all
  have "valueReferences (map Lit prefix, map Lit suffix) k v = occurrencesIn prefix suffix k v"
    using v by (cases v) (simp_all add: valueReferences_def occurrencesIn_def findAll_occurrences)
  with Cons.IH [OF rest] show ?case
    by (simp add: entry references_Cons specReferences_def)
qed






section \<open>Resolution of an environment without references\<close>

text \<open>
  A mapping that \<open>resolveSecrets\<close> returns has the keys of its input. And for a prefix and a
  suffix whose pattern characters are all escaped, an environment without line terminators
  in which no reference occurs is returned with every value as it was.
\<close>

lemma resolveSecrets_keys:
  assumes "fst (resolveSecrets env prefix suffix provider p) = Inr r"
  shows "map fst r = map fst (objectEntries env) \<and> set (map fst r) = set (map fst env)"
proof -
  from assms obtain rx where c: "compile prefix suffix = Inr rx"
    by (cases "compile prefix suffix") (auto simp: resolveSecrets_def)
  let ?entries = "objectEntries env"
  from assms c have "fst (resolveEntries provider rx ?entries ?entries p) = Inr r"
    by (simp add: resolveSecrets_run)
  then have "resolveEntries provider rx ?entries ?entries p =
      (Inr r, snd (resolveEntries provider rx ?entries ?entries p))"
    by (metis prod.collapse)
  then have "map fst r = map fst ?entries"
    by (rule resolveEntries_keys) simp
  then show ?thesis
    by simp
qed

lemma resolveSecrets_without_references:
  assumes "literalPrefix prefix" and "literalSuffix suffix"
    and "list_all (\<lambda>(k, v). singleLineValue v) env"
    and "specReferences prefix suffix (objectEntries env) = []"
  shows "resolveSecrets env prefix suffix provider p = (Inr (objectEntries env), p)"
proof -
  let ?rx = "(map Lit prefix, map Lit suffix)"
  from assms(1,2) have c: "compile prefix suffix = Inr ?rx"
    by (rule literal_compile)
  from assms(3) have "list_all (\<lambda>(k, v). singleLineValue v) (objectEntries env)"
    by (simp add: list_all_iff)
  then have "references ?rx (objectEntries env) = specReferences prefix suffix (objectEntries env)"
    by (rule references_specReferences)
  with assms(4) have "references ?rx (objectEntries env) = []"
    by simp
  then show ?thesis
    by (simp add: resolveSecrets_run [OF c] resolveEntries_no_references)
qed

text \<open>
  Claim C9 at a failing input. With the prefix \<open>@os.secret:\<close> and the suffix \<open>@\<close>, no
  reference occurs in the value \<open>see @os-secret:svc/acct@\<close>; yet the unescaped \<open>.\<close> of the
  pattern matches the \<open>-\<close>, the provider is asked for \<open>svc/acct\<close>, and the value comes back
  rewritten.
\<close>

theorem value_without_reference_is_rewritten:
  "occurrences ''@os.secret:'' ''@'' ''see @os-secret:svc/acct@'' = [] \<and>
   specReferences ''@os.secret:'' ''@'' [(''KEY'', JString ''see @os-secret:svc/acct@'')] = [] \<and>
   resolveEnvironment \<lparr>envPrefix = ''@os.secret:'', envSuffix = ''@''\<rparr>
     (mockProvider (\<lambda>svc acct. Inr ''S'') (\<lambda>svc acct. True))
     [(''KEY'', JString ''see @os-secret:svc/acct@'')] 0 =
     (Inr [(''KEY'', JString ''see S'')], 1)"
  by code_simp

section \<open>Selecting the provider\<close>

text \<open>
  The switch by itself: given that \<open>./darwin.js\<close> loaded, only \<open>darwin\<close> yields a provider,
  \<open>linux\<close> and \<open>win32\<close> fail with a ReferenceError for the identifier that is not declared,
  and every other platform fails with \<open>Unsupported platform\<close>.
\<close>

lemma selectProvider_switch:
  "(selectProvider loaded platform = Inr m \<longrightarrow> platform = ''darwin'') \<and>
   selectProvider (Inr m) ''darwin'' = Inr m \<and>
   selectProvider (Inr m) ''linux'' =
     Inl (Thrown ReferenceError ''linuxProvider is not defined'' None) \<and>
   selectProvider (Inr m) ''win32'' =
     Inl (Thrown ReferenceError ''win32Provider is not defined'' None) \<and>
   (platform \<notin> {''darwin'', ''linux'', ''win32''} \<longrightarrow>
      selectProvider (Inr m) platform =
        Inl (Thrown Error (''Unsupported platform: '' @ platform) None))"
  by (auto simp: selectProvider_def split: sum.splits if_splits)

lemma requireDarwin_throws:
  "requireDarwin be =
     Inl (Thrown SyntaxError
            ''Invalid regular expression: Range out of order in character class'' None)"
  by (simp add: requireDarwin_def compileClass_inputClass)

text \<open>
  Claim C10 at failing inputs. \<open>./darwin.js\<close> holds the malformed literal of
  \<open>isValidInput\<close>, so \<open>require("./darwin.js")\<close> throws a SyntaxError before the switch is
  reached: on every platform, \<open>darwin\<close> included, the selection fails with that error,
  not with a ReferenceError or \<open>Unsupported platform\<close>.
\<close>

theorem selectProvider_fails_on_every_platform:
  "selectProvider (requireDarwin be) platform =
     Inl (Thrown SyntaxError
            ''Invalid regular expression: Range out of order in character class'' None)"
  by (simp add: selectProvider_def requireDarwin_throws)

end
